theory Spec2Isabelle
  imports Main "HOL-Library.Word"
begin

section \<open>Data model of the thread pool (inc/threadpool.h)\<close>

text \<open>
  \<^verbatim>\<open>size_t\<close> is a 64-bit unsigned integer: increments and decrements wrap. The members of
  the C++ classes keep their names without the trailing underscore (\<^verbatim>\<open>resLimit_\<close> is
  \<open>resLimit\<close>), and a method \<^verbatim>\<open>C::m\<close> is the function \<open>C_m\<close>.
\<close>

type_synonym size_t = "64 word"

definition TASK_MAX_THRESHOLD :: size_t where
  "TASK_MAX_THRESHOLD = 2147483647"

definition THREAD_MAX_THRESHHOLD :: size_t where
  "THREAD_MAX_THRESHHOLD = 1024"

definition THREAD_IDLE_TIME :: size_t where
  "THREAD_IDLE_TIME = 2"

datatype PoolMode = MODE_FIXED | MODE_CACHED

text \<open>
  What the code can throw or crash on: the string thrown by \<^verbatim>\<open>cast_\<close>, the dereference of
  a null \<^verbatim>\<open>shared_ptr\<close> or \<^verbatim>\<open>unique_ptr\<close>, the dereference of a \<^verbatim>\<open>Result*\<close> whose
  object is gone, and the overflow of an \<^verbatim>\<open>int\<close> loop counter.
\<close>

datatype error = TypeUnmatch | NullDereference | DanglingPointer | SignedOverflow

text \<open>
  A call that waits on a condition variable either returns or stays blocked in the state
  it was called in.
\<close>

datatype 'a blocking = Blocked | Returned 'a

subsection \<open>Any\<close>

text \<open>
  \<^verbatim>\<open>Any\<close> owns a \<^verbatim>\<open>unique_ptr<Base>\<close> that is null or points to a \<^verbatim>\<open>Derive<T>\<close> holding
  a \<^verbatim>\<open>T\<close>. The concrete types \<^verbatim>\<open>T\<close> are a universe of tagged values: \<open>typeid\<close> is
  the dynamic type that \<^verbatim>\<open>dynamic_cast\<close> inspects. A string literal given to the
  constructor template is stored as a \<^verbatim>\<open>const char*\<close>.
\<close>

datatype ctype = T_int | T_ulong | T_bool | T_cstr | T_string

datatype cval =
    V_int "32 word"
  | V_ulong "64 word"
  | V_bool bool
  | V_cstr string
  | V_string string

fun typeid :: "cval \<Rightarrow> ctype" where
  "typeid (V_int _) = T_int"
| "typeid (V_ulong _) = T_ulong"
| "typeid (V_bool _) = T_bool"
| "typeid (V_cstr _) = T_cstr"
| "typeid (V_string _) = T_string"

datatype Any = Any (base: "cval option")

definition Any_default :: Any where
  "Any_default = Any None"

definition Any_of :: "cval \<Rightarrow> Any" where
  "Any_of data = Any (Some data)"

definition dynamic_cast_Derive :: "ctype \<Rightarrow> cval option \<Rightarrow> cval option" where
  "dynamic_cast_Derive T p =
     (case p of
        None \<Rightarrow> None
      | Some d \<Rightarrow> if typeid d = T then Some d else None)"

definition Any_cast :: "ctype \<Rightarrow> Any \<Rightarrow> error + cval" where
  "Any_cast T a =
     (case dynamic_cast_Derive T (base a) of
        None \<Rightarrow> Inl TypeUnmatch
      | Some pd \<Rightarrow> Inr pd)"

subsection \<open>Semaphore\<close>

record Semaphore =
  resLimit :: size_t
  isExit :: bool

definition Semaphore_init :: "size_t \<Rightarrow> Semaphore" where
  "Semaphore_init limit = \<lparr>resLimit = limit, isExit = False\<rparr>"

text \<open>
  \<^verbatim>\<open>wait\<close> returns at once on a destroyed semaphore, takes a resource when there is one,
  and blocks on the condition variable otherwise.
\<close>

definition Semaphore_wait :: "Semaphore \<Rightarrow> Semaphore blocking" where
  "Semaphore_wait sm =
     (if isExit sm then Returned sm
      else if 0 < resLimit sm then Returned (sm\<lparr>resLimit := resLimit sm - 1\<rparr>)
      else Blocked)"

definition Semaphore_post :: "Semaphore \<Rightarrow> Semaphore" where
  "Semaphore_post sm =
     (if isExit sm then sm else sm\<lparr>resLimit := resLimit sm + 1\<rparr>)"

subsection \<open>Result, Task, Thread\<close>

text \<open>
  Tasks are shared (\<^verbatim>\<open>shared_ptr<Task>\<close>, possibly null) and a task points back to its
  \<^verbatim>\<open>Result\<close> through a raw pointer, so both live in a store and are named by references.
\<close>

type_synonym task_ref = nat
type_synonym res_ref = nat

record Result =
  any :: Any
  sem :: Semaphore
  task :: "task_ref option"
  isValid :: bool

text \<open>
  \<^verbatim>\<open>Task::run\<close> is the user's code: \<open>run_value\<close> is what it returns and \<open>run_calls\<close>
  counts how often it has been invoked.
\<close>

record Task =
  result :: "res_ref option"
  run_value :: cval
  run_calls :: nat

record Thread =
  threadId :: size_t

text \<open>The three condition variables of the pool.\<close>

datatype cond = NotFull | NotEmpty | ExitCond

text \<open>
  The state: the members of \<^verbatim>\<open>ThreadPool\<close>, then what lives outside the pool object: the
  static counter \<^verbatim>\<open>Thread::generateId_\<close>, the identifiers handed to \<^verbatim>\<open>std::thread\<close> by
  \<^verbatim>\<open>Thread::start\<close> (in order), the \<^verbatim>\<open>notify_all\<close> calls (in order), and the store of
  tasks and results.
\<close>

record sys =
  threads :: "size_t \<rightharpoonup> Thread"
  initThreadSize :: size_t
  curThreadSize :: size_t
  threadIdelSize :: size_t
  threadSizeThreshHold :: size_t
  taskQue :: "task_ref option list"
  taskSize :: size_t
  taskQueMaxThreshHold :: size_t
  poolMode :: PoolMode
  isPoolRunning :: bool
  generateId :: size_t
  launched :: "size_t list"
  notified :: "cond list"
  tasks :: "task_ref \<Rightarrow> Task"
  results :: "res_ref \<rightharpoonup> Result"

definition notify_all :: "cond \<Rightarrow> sys \<Rightarrow> sys" where
  "notify_all c s = s\<lparr>notified := notified s @ [c]\<rparr>"

subsection \<open>Methods of Result and Task (src/threadpool.cpp)\<close>

text \<open>
  The move constructor initialises \<^verbatim>\<open>task_\<close> and \<^verbatim>\<open>isValid_\<close> from the source; \<^verbatim>\<open>any_\<close>
  and \<^verbatim>\<open>sem_\<close> are not in its initialiser list and are default-constructed. It returns
  the new handle and the source as it is left.
\<close>

definition Result_move :: "Result \<Rightarrow> Result \<times> Result" where
  "Result_move other =
     (\<lparr>any = Any_default, sem = Semaphore_init 0, task = task other,
       isValid = isValid other\<rparr>,
      other\<lparr>task := None, isValid := False\<rparr>)"

definition Task_setResult :: "res_ref option \<Rightarrow> Task \<Rightarrow> Task" where
  "Task_setResult res t = t\<lparr>result := res\<rparr>"

text \<open>
  \<^verbatim>\<open>Result(task, isValid)\<close> constructed at address \<open>this\<close>: it dereferences the task to
  register itself.
\<close>

definition Result_ctor :: "task_ref option \<Rightarrow> bool \<Rightarrow> res_ref \<Rightarrow> sys \<Rightarrow> error + sys" where
  "Result_ctor sp valid this s =
     (case sp of
        None \<Rightarrow> Inl NullDereference
      | Some t \<Rightarrow>
          Inr (s\<lparr>tasks := (tasks s)(t := Task_setResult (Some this) (tasks s t)),
                 results := (results s)(this \<mapsto>
                   \<lparr>any = Any_default, sem = Semaphore_init 0, task = Some t,
                    isValid = valid\<rparr>)\<rparr>))"

definition Result_setVal :: "Any \<Rightarrow> Result \<Rightarrow> Result" where
  "Result_setVal a r = r\<lparr>any := a, sem := Semaphore_post (sem r)\<rparr>"

text \<open>
  \<^verbatim>\<open>get\<close> returns the value and the handle as it is left: moving \<^verbatim>\<open>any_\<close> out leaves
  its pointer null.
\<close>

definition Result_get :: "Result \<Rightarrow> (Any \<times> Result) blocking" where
  "Result_get r =
     (if \<not> isValid r then Returned (Any_of (V_cstr ''''), r)
      else case Semaphore_wait (sem r) of
             Blocked \<Rightarrow> Blocked
           | Returned sm \<Rightarrow> Returned (any r, r\<lparr>any := Any_default, sem := sm\<rparr>))"

definition Task_run :: "Task \<Rightarrow> Any \<times> Task" where
  "Task_run t = (Any_of (run_value t), t\<lparr>run_calls := run_calls t + 1\<rparr>)"

text \<open>
  \<^verbatim>\<open>exec\<close> of the task \<open>t\<close>: with a result registered, \<^verbatim>\<open>run()\<close> is evaluated and the
  value stored through the raw pointer, which must still point to a live \<^verbatim>\<open>Result\<close>.
\<close>

definition Task_exec :: "task_ref \<Rightarrow> sys \<Rightarrow> error + sys" where
  "Task_exec t s =
     (case result (tasks s t) of
        None \<Rightarrow> Inr s
      | Some r \<Rightarrow>
          (let (v, t') = Task_run (tasks s t) in
           case results s r of
             None \<Rightarrow> Inl DanglingPointer
           | Some res \<Rightarrow>
               Inr (s\<lparr>tasks := (tasks s)(t := t'),
                      results := (results s)(r \<mapsto> Result_setVal v res)\<rparr>)))"

definition Task_ctor :: "cval \<Rightarrow> Task" where
  "Task_ctor v = \<lparr>result = None, run_value = v, run_calls = 0\<rparr>"

subsection \<open>Thread\<close>

text \<open>
  The constructor takes the next identifier from the static counter. \<^verbatim>\<open>func_\<close> is always
  the pool's \<^verbatim>\<open>threadHandler\<close> and is not stored. \<^verbatim>\<open>start\<close> creates a detached
  \<^verbatim>\<open>std::thread\<close> that runs \<^verbatim>\<open>func_(threadId_)\<close>.
\<close>

definition Thread_ctor :: "sys \<Rightarrow> Thread \<times> sys" where
  "Thread_ctor s = (\<lparr>threadId = generateId s\<rparr>, s\<lparr>generateId := generateId s + 1\<rparr>)"

definition Thread_getId :: "Thread \<Rightarrow> size_t" where
  "Thread_getId th = threadId th"

definition Thread_start :: "Thread \<Rightarrow> sys \<Rightarrow> sys" where
  "Thread_start th s = s\<lparr>launched := launched s @ [threadId th]\<rparr>"

subsection \<open>ThreadPool: construction and configuration\<close>

text \<open>
  The constructor initialises the members of the pool; the static counter, the running
  threads and the store belong to the process and stay as they are.
\<close>

definition ThreadPool_ctor :: "sys \<Rightarrow> sys" where
  "ThreadPool_ctor s =
     s\<lparr>threads := Map.empty, initThreadSize := 0, curThreadSize := 0,
       threadIdelSize := 0, threadSizeThreshHold := THREAD_MAX_THRESHHOLD,
       taskQue := [], taskSize := 0, taskQueMaxThreshHold := TASK_MAX_THRESHOLD,
       poolMode := MODE_FIXED, isPoolRunning := False\<rparr>"

text \<open>A process that has created no thread yet, with a store of unbound tasks.\<close>

definition process_start :: "(task_ref \<Rightarrow> cval) \<Rightarrow> sys" where
  "process_start runs =
     \<lparr>threads = Map.empty, initThreadSize = 0, curThreadSize = 0,
      threadIdelSize = 0, threadSizeThreshHold = 0, taskQue = [], taskSize = 0,
      taskQueMaxThreshHold = 0, poolMode = MODE_FIXED, isPoolRunning = False,
      generateId = 0, launched = [], notified = [],
      tasks = (\<lambda>t. Task_ctor (runs t)), results = Map.empty\<rparr>"

definition checkRunningState :: "sys \<Rightarrow> bool" where
  "checkRunningState s = isPoolRunning s"

definition ThreadPool_setPoolMode :: "PoolMode \<Rightarrow> sys \<Rightarrow> sys" where
  "ThreadPool_setPoolMode mode s =
     (if checkRunningState s then s else s\<lparr>poolMode := mode\<rparr>)"

definition ThreadPool_setTaskQueMaxThreshHold :: "size_t \<Rightarrow> sys \<Rightarrow> sys" where
  "ThreadPool_setTaskQueMaxThreshHold threshhold s =
     (if checkRunningState s then s else s\<lparr>taskQueMaxThreshHold := threshhold\<rparr>)"

definition ThreadPool_setThreadMaxThreshHold :: "size_t \<Rightarrow> sys \<Rightarrow> sys" where
  "ThreadPool_setThreadMaxThreshHold threshhold s =
     (if checkRunningState s then s
      else if poolMode s = MODE_CACHED then s\<lparr>threadSizeThreshHold := threshhold\<rparr>
      else s)"

subsection \<open>ThreadPool: submitTask\<close>

text \<open>\<^verbatim>\<open>unordered_map::emplace\<close> inserts only where the key is absent.\<close>

definition emplace :: "'k \<Rightarrow> 'v \<Rightarrow> ('k \<rightharpoonup> 'v) \<Rightarrow> ('k \<rightharpoonup> 'v)" where
  "emplace k v m = (case m k of None \<Rightarrow> m(k \<mapsto> v) | Some _ \<Rightarrow> m)"

text \<open>
  \<^verbatim>\<open>threads_[k]->start()\<close>: \<^verbatim>\<open>operator[]\<close> on an absent key inserts a null
  \<^verbatim>\<open>unique_ptr\<close>, and the call through it is a null dereference.
\<close>

definition threads_start :: "size_t \<Rightarrow> sys \<Rightarrow> error + sys" where
  "threads_start k s =
     (case threads s k of
        None \<Rightarrow> Inl NullDereference
      | Some th \<Rightarrow> Inr (Thread_start th s))"

text \<open>The body of the elastic-scale branch (lines 93 to 107).\<close>

definition spawn :: "sys \<Rightarrow> error + sys" where
  "spawn s =
     (let (ptr, s1) = Thread_ctor s;
          threadId = Thread_getId ptr;
          s2 = s1\<lparr>threads := emplace threadId ptr (threads s1)\<rparr>
      in case threads_start threadId s2 of
           Inl e \<Rightarrow> Inl e
         | Inr s3 \<Rightarrow>
             Inr (s3\<lparr>curThreadSize := curThreadSize s3 + 1,
                    threadIdelSize := threadIdelSize s3 + 1\<rparr>))"

text \<open>The predicate of the wait on \<^verbatim>\<open>notFull_\<close>.\<close>

definition notFull_pred :: "sys \<Rightarrow> bool" where
  "notFull_pred s = (length (taskQue s) < unat (taskQueMaxThreshHold s))"

text \<open>
  \<^verbatim>\<open>submitTask(sp)\<close>, whose returned \<^verbatim>\<open>Result\<close> is constructed in place at the caller's
  address \<open>this\<close>. Allocations and the creation of a \<^verbatim>\<open>std::thread\<close> are taken to
  succeed. The state \<open>s\<close> is the one in which \<^verbatim>\<open>wait_for\<close> returns, the lock held:
  \<^verbatim>\<open>wait_for\<close> returns the value of its predicate there, which is false only once the
  deadline of one second has passed.
\<close>

definition ThreadPool_submitTask :: "task_ref option \<Rightarrow> res_ref \<Rightarrow> sys \<Rightarrow> error + sys" where
  "ThreadPool_submitTask sp this s =
     (if \<not> notFull_pred s then Result_ctor sp False this s
      else
        let s1 = s\<lparr>taskQue := taskQue s @ [sp], taskSize := taskSize s + 1\<rparr>;
            s2 = notify_all NotEmpty s1
        in case (if poolMode s2 = MODE_CACHED \<and> threadIdelSize s2 < taskSize s2 \<and>
                    curThreadSize s2 < threadSizeThreshHold s2
                 then spawn s2 else Inr s2) of
             Inl e \<Rightarrow> Inl e
           | Inr s3 \<Rightarrow> Result_ctor sp True this s3)"

subsection \<open>ThreadPool: start\<close>

text \<open>
  The two loops of \<^verbatim>\<open>start\<close> run an \<^verbatim>\<open>int i\<close> from 0 while \<^verbatim>\<open>i < initThreadSize_\<close>, the
  comparison made in \<^verbatim>\<open>size_t\<close>; incrementing \<^verbatim>\<open>i\<close> beyond \<^verbatim>\<open>INT_MAX\<close> is an overflow.
  The first loop constructs a thread and registers it under its own identifier; the
  second starts \<^verbatim>\<open>threads_[i]\<close>.
\<close>

definition INT_MAX :: nat where
  "INT_MAX = 2147483647"

function start_create :: "nat \<Rightarrow> sys \<Rightarrow> error + sys" where
  "start_create i s =
     (if (word_of_nat i :: size_t) < initThreadSize s then
        (let (ptr, s1) = Thread_ctor s;
             threadId = Thread_getId ptr;
             s2 = s1\<lparr>threads := emplace threadId ptr (threads s1)\<rparr>
         in if INT_MAX \<le> i then Inl SignedOverflow else start_create (Suc i) s2)
      else Inr s)"
  by pat_completeness auto
termination
  by (relation "measure (\<lambda>(i, s). INT_MAX - i)") auto

function start_launch :: "nat \<Rightarrow> sys \<Rightarrow> error + sys" where
  "start_launch i s =
     (if (word_of_nat i :: size_t) < initThreadSize s then
        (case threads_start (word_of_nat i) s of
           Inl e \<Rightarrow> Inl e
         | Inr s1 \<Rightarrow>
             (let s2 = s1\<lparr>threadIdelSize := threadIdelSize s1 + 1\<rparr>
              in if INT_MAX \<le> i then Inl SignedOverflow else start_launch (Suc i) s2))
      else Inr s)"
  by pat_completeness auto
termination
  by (relation "measure (\<lambda>(i, s). INT_MAX - i)") auto

declare start_create.simps [simp del]
declare start_launch.simps [simp del]

definition ThreadPool_start :: "size_t \<Rightarrow> sys \<Rightarrow> error + sys" where
  "ThreadPool_start initThreadSize_arg s =
     (let s0 = s\<lparr>isPoolRunning := True, initThreadSize := initThreadSize_arg,
                 curThreadSize := initThreadSize_arg\<rparr>
      in case start_create 0 s0 of
           Inl e \<Rightarrow> Inl e
         | Inr s1 \<Rightarrow> start_launch 0 s1)"

text \<open>The registry in which exactly the keys below \<open>b\<close> hold the workers of those identifiers.\<close>

definition registered_below :: "size_t \<Rightarrow> sys \<Rightarrow> bool" where
  "registered_below b s =
     (\<forall>k. threads s k = (if k < b then Some \<lparr>threadId = k\<rparr> else None))"

subsection \<open>ThreadPool: threadHandler\<close>

text \<open>
  The dispatch loop of the worker \<open>threadid\<close>, one step at a time. The control points:
  \<open>Locked\<close>, holding the mutex at the test of \<^verbatim>\<open>while (taskQue_.size() == 0)\<close>;
  \<open>WaitingFor\<close> and \<open>Waiting\<close>, inside \<^verbatim>\<open>notEmpty_.wait_for\<close> and \<^verbatim>\<open>notEmpty_.wait\<close>,
  the mutex released; \<open>Running task\<close>, the mutex released and the dequeued task about
  to be executed; \<open>Exited\<close>, after \<^verbatim>\<open>return\<close>. A step out of \<open>WaitingFor\<close> is given
  what the wake-up finds: the status of the wait and the seconds since \<^verbatim>\<open>lastTime\<close> as
  the comparison with \<^verbatim>\<open>THREAD_IDLE_TIME\<close> reads them, in \<^verbatim>\<open>size_t\<close>.
\<close>

datatype cv_status = no_timeout | timeout

datatype wpc = Locked | WaitingFor | Waiting | Running "task_ref option" | Exited

definition threads_erase :: "size_t \<Rightarrow> sys \<Rightarrow> sys" where
  "threads_erase threadid s = s\<lparr>threads := (threads s)(threadid := None)\<rparr>"

definition threadHandler_locked :: "size_t \<Rightarrow> sys \<Rightarrow> wpc \<times> sys" where
  "threadHandler_locked threadid s =
     (case taskQue s of
        [] \<Rightarrow>
          if \<not> isPoolRunning s
          then (Exited, notify_all ExitCond (threads_erase threadid s))
          else if poolMode s = MODE_CACHED then (WaitingFor, s)
          else (Waiting, s)
      | front # rest \<Rightarrow>
          (let s1 = s\<lparr>threadIdelSize := threadIdelSize s - 1\<rparr>;
               s2 = s1\<lparr>taskQue := rest, taskSize := taskSize s1 - 1\<rparr>;
               s3 = (if 0 < length (taskQue s2) then notify_all NotEmpty s2 else s2)
           in (Running front, notify_all NotFull s3)))"

definition threadHandler_wait_for :: "size_t \<Rightarrow> cv_status \<Rightarrow> size_t \<Rightarrow> sys \<Rightarrow> wpc \<times> sys" where
  "threadHandler_wait_for threadid status dur s =
     (if status = timeout then
        (if THREAD_IDLE_TIME \<le> dur \<and> initThreadSize s < curThreadSize s
         then (Exited,
               (threads_erase threadid s)
                 \<lparr>curThreadSize := curThreadSize s - 1,
                  threadIdelSize := threadIdelSize s - 1\<rparr>)
         else (Locked, s))
      else (Locked, s))"

definition threadHandler_run :: "task_ref option \<Rightarrow> sys \<Rightarrow> error + wpc \<times> sys" where
  "threadHandler_run tk s =
     (case (case tk of None \<Rightarrow> Inr s | Some t \<Rightarrow> Task_exec t s) of
        Inl e \<Rightarrow> Inl e
      | Inr s1 \<Rightarrow> Inr (Locked, s1\<lparr>threadIdelSize := threadIdelSize s1 + 1\<rparr>))"

fun threadHandler :: "size_t \<Rightarrow> cv_status \<Rightarrow> size_t \<Rightarrow> wpc \<Rightarrow> sys \<Rightarrow> error + wpc \<times> sys" where
  "threadHandler threadid status dur Locked s = Inr (threadHandler_locked threadid s)"
| "threadHandler threadid status dur WaitingFor s =
     Inr (threadHandler_wait_for threadid status dur s)"
| "threadHandler threadid status dur Waiting s = Inr (Locked, s)"
| "threadHandler threadid status dur (Running tk) s = threadHandler_run tk s"
| "threadHandler threadid status dur Exited s = Inr (Exited, s)"

subsection \<open>ThreadPool: destructor\<close>

text \<open>
  The destructor clears the running flag, takes the mutex, broadcasts on \<^verbatim>\<open>notEmpty_\<close>
  and waits on \<^verbatim>\<open>exitCond_\<close> with the predicate \<^verbatim>\<open>threads_.size() == 0\<close>. A wait with a
  predicate tests it under the mutex, and again at every wake-up until it holds: \<open>ws\<close>
  are the states that the successive wake-ups find. When they are used up with the
  predicate still false, the destructor is blocked.
\<close>

definition ThreadPool_dtor_enter :: "sys \<Rightarrow> sys" where
  "ThreadPool_dtor_enter s = notify_all NotEmpty (s\<lparr>isPoolRunning := False\<rparr>)"

fun exitCond_wait :: "sys \<Rightarrow> sys list \<Rightarrow> sys blocking" where
  "exitCond_wait s [] = (if dom (threads s) = {} then Returned s else Blocked)"
| "exitCond_wait s (s' # ws) =
     (if dom (threads s) = {} then Returned s else exitCond_wait s' ws)"

definition ThreadPool_dtor :: "sys \<Rightarrow> sys list \<Rightarrow> sys blocking" where
  "ThreadPool_dtor s ws = exitCond_wait (ThreadPool_dtor_enter s) ws"

subsection \<open>The pool while it runs\<close>

text \<open>
  What can happen to a started pool before its destructor runs: a submission, a step of
  the dispatch loop of some worker at some control point, or a call of a setter. Steps
  that fail (a crash) lead nowhere.
\<close>

inductive running_step :: "sys \<Rightarrow> sys \<Rightarrow> bool" where
  submit: "ThreadPool_submitTask sp this s = Inr s' \<Longrightarrow> running_step s s'"
| worker: "threadHandler threadid status dur p s = Inr (p', s') \<Longrightarrow> running_step s s'"
| setPoolMode: "running_step s (ThreadPool_setPoolMode mode s)"
| setTaskQueMaxThreshHold: "running_step s (ThreadPool_setTaskQueMaxThreshHold n s)"
| setThreadMaxThreshHold: "running_step s (ThreadPool_setThreadMaxThreshHold n s)"

definition config :: "sys \<Rightarrow> bool \<times> size_t \<times> size_t" where
  "config s = (isPoolRunning s, initThreadSize s, threadSizeThreshHold s)"

subsection \<open>Example runs\<close>

text \<open>
  The state after a call that succeeded (\<open>s\<close> itself after one that crashed), to chain
  calls into a run.
\<close>

definition after :: "error + sys \<Rightarrow> sys \<Rightarrow> sys" where
  "after r s = (case r of Inl _ \<Rightarrow> s | Inr s' \<Rightarrow> s')"

text \<open>
  The first pool of a process whose tasks all return 5050, as \<^verbatim>\<open>ThreadPool pool;\<close>
  leaves it, and the same pool set to the cached mode.
\<close>

definition first_pool :: sys where
  "first_pool = ThreadPool_ctor (process_start (\<lambda>_. V_ulong 5050))"

definition cached_pool :: sys where
  "cached_pool = ThreadPool_setPoolMode MODE_CACHED first_pool"

text \<open>
  A run of the cached pool: started with one worker; task 10 submitted, its handle at
  address 100; worker 0 takes it; task 11 submitted, its handle at address 101.
\<close>

definition run_started :: sys where
  "run_started = after (ThreadPool_start 1 cached_pool) cached_pool"

definition run_submitted :: sys where
  "run_submitted = after (ThreadPool_submitTask (Some 10) 100 run_started) run_started"

definition run_taken :: sys where
  "run_taken = snd (threadHandler_locked 0 run_submitted)"

definition run_grown :: sys where
  "run_grown = after (ThreadPool_submitTask (Some 11) 101 run_taken) run_taken"

text \<open>
  A fixed pool with two workers, the state in which its destructor has cleared the flag
  and broadcast, and the states after worker 0 and then worker 1 found the queue empty
  and the pool stopped.
\<close>

definition fixed_started :: sys where
  "fixed_started = after (ThreadPool_start 2 first_pool) first_pool"

definition fixed_stopping :: sys where
  "fixed_stopping = ThreadPool_dtor_enter fixed_started"

definition fixed_one_left :: sys where
  "fixed_one_left = snd (threadHandler_locked 0 fixed_stopping)"

definition fixed_none_left :: sys where
  "fixed_none_left = snd (threadHandler_locked 1 fixed_one_left)"

text \<open>The state after a step of the dispatch loop that succeeded.\<close>

definition after_step :: "error + wpc \<times> sys \<Rightarrow> sys \<Rightarrow> sys" where
  "after_step r s = (case r of Inl _ \<Rightarrow> s | Inr (p, s') \<Rightarrow> s')"

text \<open>
  The run of the cached pool continued to its destruction: worker 1 takes task 11, both
  workers finish their tasks and go to wait on the empty queue; the destructor clears
  the flag and broadcasts; worker 0 comes back from its wait, finds the pool stopped and
  exits; the wait of worker 1 comes back timed out, two seconds after its last task.
\<close>

definition run_both_busy :: sys where
  "run_both_busy = snd (threadHandler_locked 1 run_grown)"

definition run_first_done :: sys where
  "run_first_done = after_step (threadHandler_run (Some 10) run_both_busy) run_both_busy"

definition run_idle :: sys where
  "run_idle = after_step (threadHandler_run (Some 11) run_first_done) run_first_done"

definition run_stopping :: sys where
  "run_stopping = ThreadPool_dtor_enter run_idle"

definition run_one_left :: sys where
  "run_one_left = snd (threadHandler_locked 0 run_stopping)"

definition run_none_left :: sys where
  "run_none_left = snd (threadHandler_wait_for 1 timeout 2 run_one_left)"

text \<open>
  A pool whose queue holds no task at all, started with one worker, and the state after
  the submission of task 10 to it; a cached pool with a ceiling of one worker, started
  with two.
\<close>

definition no_room :: sys where
  "no_room =
     after (ThreadPool_start 1 (ThreadPool_setTaskQueMaxThreshHold 0 first_pool)) first_pool"

definition rejected :: sys where
  "rejected = after (ThreadPool_submitTask (Some 10) 100 no_room) no_room"

definition over_ceiling :: sys where
  "over_ceiling =
     after (ThreadPool_start 2 (ThreadPool_setThreadMaxThreshHold 1 cached_pool)) cached_pool"

text \<open>
  A second pool, constructed in the process that has run the fixed pool above.
\<close>

definition second_pool :: sys where
  "second_pool = ThreadPool_ctor fixed_none_left"

text \<open>
  A handle of a rejected submission, and a handle whose task has delivered 5050.
\<close>

definition h_invalid :: Result where
  "h_invalid =
     \<lparr>any = Any_default, sem = Semaphore_init 0, task = Some 10, isValid = False\<rparr>"

definition h_done :: Result where
  "h_done =
     Result_setVal (Any_of (V_ulong 5050))
       \<lparr>any = Any_default, sem = Semaphore_init 0, task = Some 10, isValid = True\<rparr>"

section \<open>Properties\<close>

subsection \<open>Evaluating the example runs\<close>

lemmas eval_defs =
  first_pool_def cached_pool_def process_start_def ThreadPool_ctor_def Task_ctor_def
  ThreadPool_setPoolMode_def ThreadPool_setTaskQueMaxThreshHold_def
  ThreadPool_setThreadMaxThreshHold_def checkRunningState_def
  THREAD_MAX_THRESHHOLD_def TASK_MAX_THRESHOLD_def THREAD_IDLE_TIME_def
  ThreadPool_start_def start_create.simps start_launch.simps INT_MAX_def
  Thread_ctor_def Thread_getId_def Thread_start_def threads_start_def emplace_def
  ThreadPool_submitTask_def notFull_pred_def spawn_def notify_all_def Result_ctor_def
  Task_setResult_def Semaphore_init_def Any_default_def
  threadHandler_locked_def threadHandler_wait_for_def threads_erase_def
  ThreadPool_dtor_def ThreadPool_dtor_enter_def after_def Let_def

lemmas run_defs =
  run_grown_def run_taken_def run_submitted_def run_started_def
  fixed_none_left_def fixed_one_left_def fixed_stopping_def fixed_started_def
  no_room_def rejected_def over_ceiling_def second_pool_def

lemma run_started_eq: "ThreadPool_start 1 cached_pool = Inr run_started"
  by (simp add: run_defs eval_defs)

lemma run_submitted_eq: "ThreadPool_submitTask (Some 10) 100 run_started = Inr run_submitted"
  by (simp add: run_defs eval_defs)

lemma run_taken_eq:
  "threadHandler 0 no_timeout 0 Locked run_submitted = Inr (Running (Some 10), run_taken)"
  by (simp add: run_defs eval_defs)

lemma run_grown_eq: "ThreadPool_submitTask (Some 11) 101 run_taken = Inr run_grown"
  by (simp add: run_defs eval_defs)

lemma run_started_fields:
  "isPoolRunning run_started" "poolMode run_started = MODE_CACHED"
  "taskQue run_started = []" "taskSize run_started = 0"
  "taskQueMaxThreshHold run_started = 2147483647"
  "initThreadSize run_started = 1" "curThreadSize run_started = 1"
  "threadIdelSize run_started = 1" "threadSizeThreshHold run_started = 1024"
  "launched run_started = [0]" "generateId run_started = 1"
  "threads run_started = [0 \<mapsto> \<lparr>threadId = 0\<rparr>]"
  by (simp_all add: run_defs eval_defs)

lemma run_taken_fields:
  "poolMode run_taken = MODE_CACHED" "taskQue run_taken = []" "taskSize run_taken = 0"
  "taskQueMaxThreshHold run_taken = 2147483647"
  "curThreadSize run_taken = 1" "threadIdelSize run_taken = 0"
  "threadSizeThreshHold run_taken = 1024"
  "launched run_taken = [0]" "generateId run_taken = 1"
  "threads run_taken = [0 \<mapsto> \<lparr>threadId = 0\<rparr>]"
  by (simp_all add: run_defs eval_defs)

lemma run_grown_fields:
  "initThreadSize run_grown = 1" "curThreadSize run_grown = 2" "threadIdelSize run_grown = 1"
  "threadSizeThreshHold run_grown = 1024" "launched run_grown = [0, 1]"
  "taskQue run_grown = [Some 11]" "taskSize run_grown = 1"
  "threads run_grown = [0 \<mapsto> \<lparr>threadId = 0\<rparr>, 1 \<mapsto> \<lparr>threadId = 1\<rparr>]"
  by (simp_all add: run_defs eval_defs)

lemma no_room_fields:
  "isPoolRunning no_room" "taskQue no_room = []" "taskSize no_room = 0"
  "taskQueMaxThreshHold no_room = 0"
  by (simp_all add: run_defs eval_defs)

lemma rejected_eq: "ThreadPool_submitTask (Some 10) 100 no_room = Inr rejected"
  by (simp add: run_defs eval_defs)

lemma fixed_started_eq: "ThreadPool_start 2 first_pool = Inr fixed_started"
  by (simp add: run_defs eval_defs)

lemma fixed_stopping_fields:
  "\<not> isPoolRunning fixed_stopping" "taskQue fixed_stopping = []"
  "notified fixed_stopping = [NotEmpty]"
  "threads fixed_stopping = [0 \<mapsto> \<lparr>threadId = 0\<rparr>, 1 \<mapsto> \<lparr>threadId = 1\<rparr>]"
  by (simp_all add: run_defs eval_defs)

lemma fixed_one_left_fields:
  "\<not> isPoolRunning fixed_one_left" "taskQue fixed_one_left = []"
  "notified fixed_one_left = [NotEmpty, ExitCond]"
  "dom (threads fixed_one_left) = {1}"
  by (auto simp add: run_defs eval_defs)

lemma fixed_none_left_fields:
  "notified fixed_none_left = [NotEmpty, ExitCond, ExitCond]"
  "dom (threads fixed_none_left) = {}" "generateId fixed_none_left = 2"
  by (auto simp add: run_defs eval_defs)

subsection \<open>Any: cast\<close>

text \<open>
  C6. Casting an \<^verbatim>\<open>Any\<close> constructed from a value \<open>v\<close> to the type of \<open>v\<close> returns
  \<open>v\<close>; casting an \<^verbatim>\<open>Any\<close> whose stored dynamic type is not the requested type (an empty
  \<^verbatim>\<open>Any\<close> included) fails with the type-mismatch error.
\<close>

theorem Any_cast_roundtrip_or_unmatch:
  "Any_cast (typeid v) (Any_of v) = Inr v \<and>
   ((\<forall>d. base a = Some d \<longrightarrow> typeid d \<noteq> T) \<longrightarrow> Any_cast T a = Inl TypeUnmatch)"
  by (cases "base a") (simp_all add: Any_cast_def Any_of_def dynamic_cast_Derive_def)

text \<open>
  An \<^verbatim>\<open>Any\<close> made from the \<^verbatim>\<open>unsigned long long\<close> 5050 casts back to it, and its cast to
  a string fails.
\<close>

theorem Any_cast_roundtrip_or_unmatch_witness:
  "Any_cast T_ulong (Any_of (V_ulong 5050)) = Inr (V_ulong 5050) \<and>
   Any_cast T_string (Any_of (V_ulong 5050)) = Inl TypeUnmatch"
proof -
  have h: "\<forall>d. base (Any_of (V_ulong 5050)) = Some d \<longrightarrow> typeid d \<noteq> T_string"
    by (simp add: Any_of_def)
  from Any_cast_roundtrip_or_unmatch [of "V_ulong 5050" "Any_of (V_ulong 5050)" T_string] h
  show ?thesis by simp
qed

subsection \<open>Result: get and the move constructor\<close>

text \<open>
  C3. On a handle whose validity flag is false, \<^verbatim>\<open>get\<close> returns at once the sentinel, an
  \<^verbatim>\<open>Any\<close> made from the empty string literal, whatever the semaphore holds, and leaves
  the handle as it is. On a valid handle it waits on the semaphore: it is blocked while
  the wait is, and once the wait returns it hands out the stored value and leaves the
  slot empty. On a live semaphore the wait blocks at count 0 and otherwise takes one
  resource.
\<close>

theorem Result_get_invalid_immediate_valid_waits:
  "(\<not> isValid r \<longrightarrow> Result_get r = Returned (Any_of (V_cstr ''''), r)) \<and>
   (isValid r \<and> Semaphore_wait (sem r) = Blocked \<longrightarrow> Result_get r = Blocked) \<and>
   (\<forall>sm. isValid r \<and> Semaphore_wait (sem r) = Returned sm \<longrightarrow>
      Result_get r = Returned (any r, r\<lparr>any := Any_default, sem := sm\<rparr>)) \<and>
   (\<not> isExit (sem r) \<longrightarrow>
      Semaphore_wait (sem r) =
        (if resLimit (sem r) = 0 then Blocked
         else Returned ((sem r)\<lparr>resLimit := resLimit (sem r) - 1\<rparr>)))"
  by (simp add: Result_get_def Semaphore_wait_def word_greater_zero_iff)

text \<open>
  The invalid handle has a semaphore on which a wait would block, and \<^verbatim>\<open>get\<close> returns
  the sentinel all the same; the same handle with the flag set is blocked; the handle
  whose task has delivered 5050 returns it.
\<close>

theorem Result_get_invalid_immediate_valid_waits_witness:
  "Semaphore_wait (sem h_invalid) = Blocked \<and>
   Result_get h_invalid = Returned (Any_of (V_cstr ''''), h_invalid) \<and>
   Result_get (h_invalid\<lparr>isValid := True\<rparr>) = Blocked \<and>
   Result_get h_done =
     Returned (Any_of (V_ulong 5050), h_done\<lparr>any := Any_default, sem := Semaphore_init 0\<rparr>)"
  using Result_get_invalid_immediate_valid_waits [of h_invalid]
    Result_get_invalid_immediate_valid_waits [of "h_invalid\<lparr>isValid := True\<rparr>"]
    Result_get_invalid_immediate_valid_waits [of h_done]
  by (simp add: h_invalid_def h_done_def Result_setVal_def Semaphore_post_def Semaphore_init_def)

text \<open>
  Moving the handle whose task has delivered 5050 does not give the destination the
  semaphore (count 1) or the value: the claim that semaphore, value slot and task
  reference are all transferred fails there.
\<close>

theorem Result_move_counterexample:
  "\<not> (sem (fst (Result_move h_done)) = sem h_done \<and>
      any (fst (Result_move h_done)) = any h_done \<and>
      task (fst (Result_move h_done)) = task h_done \<and>
      \<not> isValid (snd (Result_move h_done)))"
  by (simp add: Result_move_def h_done_def Result_setVal_def Semaphore_post_def
      Semaphore_init_def Any_default_def Any_of_def)

text \<open>
  C4, as amended. Move-constructing a handle transfers the task reference and the
  validity flag to the destination and leaves the source without a task reference and
  with the flag false. The semaphore, which holds a mutex and cannot be moved, is not
  transferred: the destination starts with a fresh semaphore of count 0 and the source
  keeps its own.
\<close>

theorem Result_move_transfers_task_and_validity:
  "task (fst (Result_move r)) = task r \<and>
   isValid (fst (Result_move r)) = isValid r \<and>
   task (snd (Result_move r)) = None \<and>
   \<not> isValid (snd (Result_move r)) \<and>
   sem (fst (Result_move r)) = Semaphore_init 0 \<and>
   sem (snd (Result_move r)) = sem r"
  by (simp add: Result_move_def)

theorem Result_move_transfers_task_and_validity_witness:
  "task (fst (Result_move h_done)) = Some 10 \<and>
   isValid (fst (Result_move h_done)) \<and>
   task (snd (Result_move h_done)) = None \<and>
   \<not> isValid (snd (Result_move h_done)) \<and>
   resLimit (sem (fst (Result_move h_done))) = 0 \<and>
   resLimit (sem (snd (Result_move h_done))) = 1"
  using Result_move_transfers_task_and_validity [of h_done]
  by (simp add: h_done_def Result_setVal_def Semaphore_post_def Semaphore_init_def)

subsection \<open>Task: exec\<close>

text \<open>
  C10. A task as its constructor leaves it has no result registered, and \<^verbatim>\<open>exec\<close> on a
  task with no result registered returns normally with the state as it was: \<^verbatim>\<open>run\<close> has
  not been invoked (its call count is part of the state) and nothing was dereferenced.
\<close>

theorem Task_exec_unbound_noop:
  "result (Task_ctor v) = None \<and>
   (result (tasks s t) = None \<longrightarrow> Task_exec t s = Inr s)"
  by (simp add: Task_exec_def Task_ctor_def)

text \<open>
  Task 10 is unbound in the fresh pool and its \<^verbatim>\<open>exec\<close> changes nothing; once it has
  been submitted it is bound to the handle at 100 and \<^verbatim>\<open>exec\<close> does invoke \<^verbatim>\<open>run\<close>.
\<close>

theorem Task_exec_unbound_noop_witness:
  "result (tasks first_pool 10) = None \<and>
   Task_exec 10 first_pool = Inr first_pool \<and>
   result (tasks run_taken 10) = Some 100 \<and>
   run_calls (tasks (after (Task_exec 10 run_taken) run_taken) 10) = 1"
  using Task_exec_unbound_noop [of "V_ulong 5050" first_pool 10]
  by (simp add: run_defs eval_defs Task_exec_def Task_run_def)

subsection \<open>ThreadPool: setters\<close>

text \<open>
  C9. While the pool is running each of the three setters returns the state unchanged.
  \<^verbatim>\<open>setThreadMaxThreshHold\<close> leaves the ceiling as it is in the fixed mode, also before
  the start; it changes the ceiling only in the cached mode of a pool that is not
  running, where it sets it to its argument.
\<close>

theorem setters_ignored_while_running:
  "(isPoolRunning s \<longrightarrow>
      ThreadPool_setPoolMode mode s = s \<and>
      ThreadPool_setTaskQueMaxThreshHold n s = s \<and>
      ThreadPool_setThreadMaxThreshHold n s = s) \<and>
   (poolMode s = MODE_FIXED \<longrightarrow>
      threadSizeThreshHold (ThreadPool_setThreadMaxThreshHold n s) = threadSizeThreshHold s) \<and>
   (threadSizeThreshHold (ThreadPool_setThreadMaxThreshHold n s) \<noteq> threadSizeThreshHold s \<longrightarrow>
      poolMode s = MODE_CACHED \<and> \<not> isPoolRunning s) \<and>
   (poolMode s = MODE_CACHED \<and> \<not> isPoolRunning s \<longrightarrow>
      threadSizeThreshHold (ThreadPool_setThreadMaxThreshHold n s) = n)"
  by (simp add: ThreadPool_setPoolMode_def ThreadPool_setTaskQueMaxThreshHold_def
      ThreadPool_setThreadMaxThreshHold_def checkRunningState_def)

theorem setters_ignored_while_running_witness:
  "isPoolRunning run_started \<and>
   ThreadPool_setPoolMode MODE_FIXED run_started = run_started \<and>
   ThreadPool_setTaskQueMaxThreshHold 8 run_started = run_started \<and>
   ThreadPool_setThreadMaxThreshHold 8 run_started = run_started \<and>
   poolMode first_pool = MODE_FIXED \<and> \<not> isPoolRunning first_pool \<and>
   threadSizeThreshHold (ThreadPool_setThreadMaxThreshHold 8 first_pool) =
     threadSizeThreshHold first_pool \<and>
   poolMode cached_pool = MODE_CACHED \<and> \<not> isPoolRunning cached_pool \<and>
   threadSizeThreshHold (ThreadPool_setThreadMaxThreshHold 8 cached_pool) = 8"
proof -
  have a: "isPoolRunning run_started"
    by (rule run_started_fields)
  have b: "poolMode first_pool = MODE_FIXED" "\<not> isPoolRunning first_pool"
    by (simp_all add: first_pool_def ThreadPool_ctor_def)
  have c: "poolMode cached_pool = MODE_CACHED" "\<not> isPoolRunning cached_pool"
    by (simp_all add: cached_pool_def first_pool_def ThreadPool_ctor_def
        ThreadPool_setPoolMode_def checkRunningState_def)
  from setters_ignored_while_running [of run_started MODE_FIXED 8]
    setters_ignored_while_running [of first_pool MODE_FIXED 8]
    setters_ignored_while_running [of cached_pool MODE_FIXED 8] a b c
  show ?thesis by simp
qed

subsection \<open>ThreadPool: submitTask\<close>

lemma emplace_same: "emplace k v m k = Some (case m k of None \<Rightarrow> v | Some w \<Rightarrow> w)"
  by (simp add: emplace_def split: option.splits)

lemma emplace_fresh: "m k = None \<Longrightarrow> emplace k v m = m(k \<mapsto> v)"
  by (simp add: emplace_def)

text \<open>The elastic-scale branch never fails: the key it starts has just been emplaced.\<close>

lemma spawn_Inr:
  "spawn s =
     Inr (s\<lparr>generateId := generateId s + 1,
            threads := emplace (generateId s) \<lparr>threadId = generateId s\<rparr> (threads s),
            launched := launched s @
              [threadId (case threads s (generateId s) of
                           None \<Rightarrow> \<lparr>threadId = generateId s\<rparr> | Some w \<Rightarrow> w)],
            curThreadSize := curThreadSize s + 1,
            threadIdelSize := threadIdelSize s + 1\<rparr>)"
  by (simp add: spawn_def Thread_ctor_def Thread_getId_def threads_start_def Thread_start_def
      emplace_same Let_def)

text \<open>
  C1. For every task \<open>t\<close> (a non-null \<^verbatim>\<open>shared_ptr\<close>), \<^verbatim>\<open>submitTask\<close> returns normally,
  and the handle it returns, at \<open>this\<close>, is bound to \<open>t\<close>. When the wait ends with the
  queue below its bound, the task is at the back of the queue, \<^verbatim>\<open>taskSize_\<close> is one
  more and the handle is valid. When it ends with the predicate false, which is the
  deadline passed, the queue and \<^verbatim>\<open>taskSize_\<close> are unchanged and the handle is invalid.
  There is no third outcome.
\<close>

theorem submitTask_enqueues_or_invalid:
  "\<exists>s'. ThreadPool_submitTask (Some t) this s = Inr s' \<and>
     (if length (taskQue s) < unat (taskQueMaxThreshHold s)
      then taskQue s' = taskQue s @ [Some t] \<and> taskSize s' = taskSize s + 1 \<and>
           results s' this =
             Some \<lparr>any = Any_default, sem = Semaphore_init 0, task = Some t, isValid = True\<rparr>
      else taskQue s' = taskQue s \<and> taskSize s' = taskSize s \<and>
           results s' this =
             Some \<lparr>any = Any_default, sem = Semaphore_init 0, task = Some t, isValid = False\<rparr>)"
  by (simp add: ThreadPool_submitTask_def notFull_pred_def Result_ctor_def notify_all_def
      spawn_Inr Let_def)

text \<open>
  Task 10 submitted to the started cached pool is enqueued with a valid handle; submitted
  to the pool whose queue bound is 0 it is rejected with an invalid one.
\<close>

theorem submitTask_enqueues_or_invalid_witness:
  "ThreadPool_submitTask (Some 10) 100 run_started = Inr run_submitted \<and>
   taskQue run_submitted = taskQue run_started @ [Some 10] \<and>
   taskSize run_submitted = taskSize run_started + 1 \<and>
   results run_submitted 100 =
     Some \<lparr>any = Any_default, sem = Semaphore_init 0, task = Some 10, isValid = True\<rparr> \<and>
   ThreadPool_submitTask (Some 10) 100 no_room = Inr rejected \<and>
   taskQue rejected = taskQue no_room \<and> taskSize rejected = taskSize no_room \<and>
   results rejected 100 =
     Some \<lparr>any = Any_default, sem = Semaphore_init 0, task = Some 10, isValid = False\<rparr>"
  using submitTask_enqueues_or_invalid [of 10 100 run_started]
    submitTask_enqueues_or_invalid [of 10 100 no_room]
  by (simp add: run_submitted_eq rejected_eq run_started_fields no_room_fields)

text \<open>
  C5. In a successful submission (the wait ended with the queue below its bound), with
  the identifier that the counter issues next not yet in the registry: if the pool is in
  the cached mode, \<^verbatim>\<open>taskSize_\<close> (which counts the task just enqueued) exceeds the idle
  count and the worker count is below the ceiling, then a worker with that identifier is
  registered under it and launched and both counters are one more; otherwise the
  registry, the launched threads and both counters are unchanged.
\<close>

theorem submitTask_spawns_iff:
  assumes "notFull_pred s" and "generateId s \<notin> dom (threads s)"
  shows "\<exists>s'. ThreadPool_submitTask (Some t) this s = Inr s' \<and>
     (if poolMode s = MODE_CACHED \<and> threadIdelSize s < taskSize s + 1 \<and>
         curThreadSize s < threadSizeThreshHold s
      then threads s' = (threads s)(generateId s \<mapsto> \<lparr>threadId = generateId s\<rparr>) \<and>
           launched s' = launched s @ [generateId s] \<and>
           curThreadSize s' = curThreadSize s + 1 \<and>
           threadIdelSize s' = threadIdelSize s + 1
      else threads s' = threads s \<and> launched s' = launched s \<and>
           curThreadSize s' = curThreadSize s \<and>
           threadIdelSize s' = threadIdelSize s)"
  using assms
  by (auto simp add: ThreadPool_submitTask_def Result_ctor_def notify_all_def
      spawn_Inr emplace_fresh domIff Let_def)

text \<open>
  With the only worker busy, the submission of task 11 creates and launches worker 1;
  with the worker idle, the submission of task 10 created none.
\<close>

theorem submitTask_spawns_iff_witness:
  "notFull_pred run_taken \<and> generateId run_taken \<notin> dom (threads run_taken) \<and>
   ThreadPool_submitTask (Some 11) 101 run_taken = Inr run_grown \<and>
   threads run_grown = (threads run_taken)(1 \<mapsto> \<lparr>threadId = 1\<rparr>) \<and>
   launched run_grown = launched run_taken @ [1] \<and>
   curThreadSize run_grown = curThreadSize run_taken + 1 \<and>
   threadIdelSize run_grown = threadIdelSize run_taken + 1 \<and>
   notFull_pred run_started \<and> generateId run_started \<notin> dom (threads run_started) \<and>
   ThreadPool_submitTask (Some 10) 100 run_started = Inr run_submitted \<and>
   threads run_submitted = threads run_started \<and>
   launched run_submitted = launched run_started \<and>
   curThreadSize run_submitted = curThreadSize run_started \<and>
   threadIdelSize run_submitted = threadIdelSize run_started"
proof -
  have a: "notFull_pred run_taken" "generateId run_taken \<notin> dom (threads run_taken)"
    by (simp_all add: notFull_pred_def run_taken_fields)
  have b: "notFull_pred run_started" "generateId run_started \<notin> dom (threads run_started)"
    by (simp_all add: notFull_pred_def run_started_fields)
  from submitTask_spawns_iff [OF a, of 11 101] submitTask_spawns_iff [OF b, of 10 100] a b
  show ?thesis
    by (simp add: run_grown_eq run_submitted_eq run_taken_fields run_started_fields)
qed

subsection \<open>ThreadPool: start\<close>

text \<open>
  In a process that has created no thread yet, the counter is 0 and \<^verbatim>\<open>start(n)\<close> does
  for every \<open>n\<close> up to \<^verbatim>\<open>INT_MAX\<close> what its name says: the identifiers issued are 0 to
  \<open>n - 1\<close>, which are the keys that the second loop launches.
\<close>

lemma of_nat_less_size_t:
  "i < unat (n::size_t) \<Longrightarrow> (word_of_nat i :: size_t) < n"
  by (simp add: word_less_nat_alt le_unat_uoi [OF less_imp_le])

lemma less_of_nat_Suc:
  "Suc i \<le> unat (n::size_t) \<Longrightarrow>
   (k < (word_of_nat (Suc i) :: size_t)) = (k < word_of_nat i \<or> k = word_of_nat i)"
  by (metis (mono_tags, lifting) Suc_leD le_unat_uoi less_Suc_eq
    linorder_cases word_less_iff_unsigned)

lemma less_add_one_of_nat:
  "i < unat (n::size_t) \<Longrightarrow>
   (k < 1 + (word_of_nat i :: size_t)) = (k < word_of_nat i \<or> k = word_of_nat i)"
  using less_of_nat_Suc [of i n k] by simp

lemma start_create_first:
  assumes "initThreadSize s = n" and "unat n \<le> INT_MAX" and "i \<le> unat n"
    and "generateId s = word_of_nat i" and "registered_below (word_of_nat i) s"
  shows "\<exists>s'. start_create i s = Inr s' \<and> registered_below n s' \<and>
    s' = s\<lparr>generateId := n, threads := threads s'\<rparr>"
  using assms
proof (induction "unat n - i" arbitrary: i s)
  case 0
  then have eq: "i = unat n" by simp
  with "0.prems"(1) have "\<not> (word_of_nat i :: size_t) < initThreadSize s" by simp
  then have "start_create i s = Inr s" by (subst start_create.simps) simp
  with "0.prems" eq show ?case by simp
next
  case (Suc d)
  then have lt: "i < unat n" by simp
  let ?s2 = "s\<lparr>generateId := generateId s + 1,
      threads := emplace (generateId s) \<lparr>threadId = generateId s\<rparr> (threads s)\<rparr>"
  have none: "threads s (word_of_nat i) = None"
    using Suc.prems(5) by (simp add: registered_below_def)
  have reg: "registered_below (word_of_nat (Suc i)) ?s2"
    using Suc.prems(4,5) lt none
    by (auto simp add: registered_below_def emplace_fresh less_add_one_of_nat [of i n])
  have "\<exists>s'. start_create (Suc i) ?s2 = Inr s' \<and> registered_below n s' \<and>
      s' = ?s2\<lparr>generateId := n, threads := threads s'\<rparr>"
    using Suc.hyps(2) Suc.prems(1,2,4) lt reg
    by (intro Suc.hyps(1)) simp_all
  moreover have "start_create i s = start_create (Suc i) ?s2"
    using lt Suc.prems(1,2)
    by (simp add: start_create.simps [of i s] of_nat_less_size_t Thread_ctor_def
        Thread_getId_def Let_def)
  ultimately show ?case by auto
qed

lemma start_launch_first:
  assumes "initThreadSize s = n" and "unat n \<le> INT_MAX" and "i \<le> unat n"
    and "registered_below n s"
  shows "start_launch i s =
    Inr (s\<lparr>launched := launched s @ map word_of_nat [i..<unat n],
           threadIdelSize := threadIdelSize s + word_of_nat (unat n - i)\<rparr>)"
  using assms
proof (induction "unat n - i" arbitrary: i s)
  case 0
  then have eq: "i = unat n" by simp
  with "0.prems"(1) have "\<not> (word_of_nat i :: size_t) < initThreadSize s" by simp
  then have "start_launch i s = Inr s" by (subst start_launch.simps) simp
  with eq show ?case by simp
next
  case (Suc d)
  then have lt: "i < unat n" by simp
  let ?s2 = "s\<lparr>launched := launched s @ [word_of_nat i],
      threadIdelSize := threadIdelSize s + 1\<rparr>"
  have some: "threads s (word_of_nat i) = Some \<lparr>threadId = word_of_nat i\<rparr>"
    using Suc.prems(4) lt by (simp add: registered_below_def of_nat_less_size_t)
  have step: "start_launch i s = start_launch (Suc i) ?s2"
    using lt Suc.prems(1,2) some
    by (simp add: start_launch.simps [of i s] of_nat_less_size_t threads_start_def
        Thread_start_def Let_def)
  have "start_launch (Suc i) ?s2 =
      Inr (?s2\<lparr>launched := launched ?s2 @ map word_of_nat [Suc i..<unat n],
           threadIdelSize := threadIdelSize ?s2 + word_of_nat (unat n - Suc i)\<rparr>)"
    using Suc.hyps(2) Suc.prems(1,2,4) lt
    by (intro Suc.hyps(1)) (simp_all add: registered_below_def)
  moreover have "unat n - i = Suc (unat n - Suc i)" using lt by simp
  ultimately show ?case using step lt
    by (simp add: upt_conv_Cons)
qed

text \<open>
  The first pool of a process: \<^verbatim>\<open>start(n)\<close> sets the flag and both counts, registers the
  workers 0 to \<open>n - 1\<close>, launches them in this order and adds \<open>n\<close> to the idle count.
\<close>

lemma start_first_pool:
  assumes "generateId s = 0" and "threads s = Map.empty" and "unat n \<le> INT_MAX"
  shows "\<exists>s'. ThreadPool_start n s = Inr s' \<and> isPoolRunning s' \<and>
    initThreadSize s' = n \<and> curThreadSize s' = n \<and>
    dom (threads s') = {k. k < n} \<and>
    launched s' = launched s @ map word_of_nat [0..<unat n] \<and>
    threadIdelSize s' = threadIdelSize s + n"
proof -
  let ?s0 = "s\<lparr>isPoolRunning := True, initThreadSize := n, curThreadSize := n\<rparr>"
  have "\<exists>s1. start_create 0 ?s0 = Inr s1 \<and> registered_below n s1 \<and>
      s1 = ?s0\<lparr>generateId := n, threads := threads s1\<rparr>"
    using assms by (intro start_create_first) (simp_all add: registered_below_def)
  then obtain s1 where c: "start_create 0 ?s0 = Inr s1" and r: "registered_below n s1"
    and e: "s1 = ?s0\<lparr>generateId := n, threads := threads s1\<rparr>"
    by blast
  have i1: "initThreadSize s1 = n" by (subst e) simp
  have l: "start_launch 0 s1 =
      Inr (s1\<lparr>launched := launched s1 @ map word_of_nat [0..<unat n],
           threadIdelSize := threadIdelSize s1 + word_of_nat (unat n - 0)\<rparr>)"
    using i1 assms(3) r by (intro start_launch_first) simp_all
  have d: "dom (threads s1) = {k. k < n}"
    using r by (auto simp add: registered_below_def dom_def)
  have f: "isPoolRunning s1" "curThreadSize s1 = n" "launched s1 = launched s"
    "threadIdelSize s1 = threadIdelSize s"
    by (subst e, simp)+
  show ?thesis
    using c l d i1 f by (simp add: ThreadPool_start_def Let_def)
qed

text \<open>
  C7. \<^verbatim>\<open>start(n)\<close> registers each new worker under the identifier that the static
  counter issues, and then launches \<^verbatim>\<open>threads_[0]\<close> to \<^verbatim>\<open>threads_[n-1]\<close>. The first pool
  of a process, started with two workers, gets the identifiers 0 and 1 and runs. A second
  pool constructed in the same process finds the counter at 2: \<^verbatim>\<open>start(2)\<close> registers
  its workers under 2 and 3, then looks up the key 0, which is absent, and dereferences
  a null pointer; no worker of it is launched.
\<close>

theorem start_second_pool_null_dereference:
  "ThreadPool_start 2 first_pool = Inr fixed_started \<and>
   generateId second_pool = 2 \<and> dom (threads second_pool) = {} \<and>
   threadIdelSize second_pool = 0 \<and> \<not> isPoolRunning second_pool \<and>
   ThreadPool_start 2 second_pool = Inl NullDereference"
  by (intro conjI) (simp_all add: run_defs eval_defs)

subsection \<open>ThreadPool: the worker count\<close>

text \<open>
  \<^verbatim>\<open>start\<close> sets the running flag and both counts to its argument and leaves the ceiling
  alone; its loops touch none of them.
\<close>

lemma start_create_frame:
  "start_create i s = Inr s' \<Longrightarrow>
   config s' = config s \<and> curThreadSize s' = curThreadSize s"
proof (induction i s rule: start_create.induct)
  case (1 i s)
  show ?case
  proof (cases "(word_of_nat i :: size_t) < initThreadSize s")
    case False
    with "1.prems" show ?thesis by (simp add: start_create.simps)
  next
    case True
    let ?s2 = "s\<lparr>generateId := generateId s + 1,
      threads := emplace (generateId s) \<lparr>threadId = generateId s\<rparr> (threads s)\<rparr>"
    from True "1.prems" have ni: "\<not> INT_MAX \<le> i" and rec: "start_create (Suc i) ?s2 = Inr s'"
      by (simp_all add: start_create.simps [of i s] Thread_ctor_def Thread_getId_def Let_def
          split: if_splits)
    from "1.IH" [OF True refl prod.collapse refl refl ni] rec show ?thesis
      by (simp add: Thread_ctor_def Thread_getId_def config_def)
  qed
qed

lemma start_launch_frame:
  "start_launch i s = Inr s' \<Longrightarrow>
   config s' = config s \<and> curThreadSize s' = curThreadSize s"
proof (induction i s rule: start_launch.induct)
  case (1 i s)
  show ?case
  proof (cases "(word_of_nat i :: size_t) < initThreadSize s")
    case False
    with "1.prems" show ?thesis by (simp add: start_launch.simps)
  next
    case True
    with "1.prems" obtain s1 where
      s1: "threads_start (word_of_nat i) s = Inr s1" and ni: "\<not> INT_MAX \<le> i" and
      rec: "start_launch (Suc i) (s1\<lparr>threadIdelSize := threadIdelSize s1 + 1\<rparr>) = Inr s'"
      by (auto simp add: start_launch.simps [of i s] Let_def split: sum.splits if_splits)
    have "config s' = config (s1\<lparr>threadIdelSize := threadIdelSize s1 + 1\<rparr>) \<and>
      curThreadSize s' = curThreadSize (s1\<lparr>threadIdelSize := threadIdelSize s1 + 1\<rparr>)"
      by (rule "1.IH" [OF True s1 _ ni rec]) simp
    moreover from s1 have "config s1 = config s \<and> curThreadSize s1 = curThreadSize s"
      by (auto simp add: threads_start_def Thread_start_def config_def split: option.splits)
    ultimately show ?thesis by (simp add: config_def)
  qed
qed

lemma start_establishes:
  assumes "ThreadPool_start n s0 = Inr s"
  shows "isPoolRunning s \<and> initThreadSize s = n \<and> curThreadSize s = n \<and>
    threadSizeThreshHold s = threadSizeThreshHold s0"
proof -
  let ?s0 = "s0\<lparr>isPoolRunning := True, initThreadSize := n, curThreadSize := n\<rparr>"
  from assms obtain s1 where a: "start_create 0 ?s0 = Inr s1" and b: "start_launch 0 s1 = Inr s"
    by (auto simp add: ThreadPool_start_def Let_def split: sum.splits)
  from start_create_frame [OF a] start_launch_frame [OF b] show ?thesis
    by (simp add: config_def)
qed

text \<open>
  One step of a running pool keeps it running and keeps the worker count at or above the
  initial count: the count grows only below the ceiling, where the increment cannot
  wrap, and shrinks only while it exceeds the initial count.
\<close>

lemma running_step_lower:
  assumes "running_step s t" and "isPoolRunning s" and "initThreadSize s \<le> curThreadSize s"
  shows "isPoolRunning t \<and> initThreadSize t = initThreadSize s \<and>
    initThreadSize t \<le> curThreadSize t"
  using assms
proof (cases rule: running_step.cases)
  case (submit sp this)
  have "\<And>c h. (c::size_t) < h \<Longrightarrow> initThreadSize s \<le> c \<Longrightarrow> initThreadSize s \<le> c + 1"
    by unat_arith
  with submit assms(2,3) show ?thesis
    by (auto simp add: ThreadPool_submitTask_def Result_ctor_def notify_all_def spawn_Inr Let_def
        split: if_splits option.splits)
next
  case (worker threadid status dur p p')
  have dec: "\<And>c i. (i::size_t) < c \<Longrightarrow> i \<le> c - 1" by unat_arith
  from worker assms(2,3) show ?thesis
  proof (cases p)
    case (Running tk)
    with worker assms(2,3) show ?thesis
      by (auto simp add: threadHandler_run_def Task_exec_def Task_run_def Let_def
          split: option.splits sum.splits)
  qed (auto simp add: threadHandler_locked_def threadHandler_wait_for_def notify_all_def
      threads_erase_def Let_def dec split: list.splits if_splits)
qed (use assms in \<open>simp_all add: ThreadPool_setPoolMode_def ThreadPool_setTaskQueMaxThreshHold_def
      ThreadPool_setThreadMaxThreshHold_def checkRunningState_def\<close>)

text \<open>One step of a running pool keeps the worker count at or below the ceiling.\<close>

lemma running_step_upper:
  assumes "running_step s t" and "isPoolRunning s" and "curThreadSize s \<le> threadSizeThreshHold s"
  shows "isPoolRunning t \<and> curThreadSize t \<le> threadSizeThreshHold t"
  using assms
proof (cases rule: running_step.cases)
  case (submit sp this)
  have "\<And>c h. (c::size_t) < h \<Longrightarrow> c + 1 \<le> h"
    by unat_arith
  with submit assms(2,3) show ?thesis
    by (auto simp add: ThreadPool_submitTask_def Result_ctor_def notify_all_def spawn_Inr Let_def
        split: if_splits option.splits)
next
  case (worker threadid status dur p p')
  have dec: "\<And>c i h. (i::size_t) < c \<Longrightarrow> c \<le> h \<Longrightarrow> c - 1 \<le> h" by unat_arith
  from worker assms(2,3) show ?thesis
  proof (cases p)
    case (Running tk)
    with worker assms(2,3) show ?thesis
      by (auto simp add: threadHandler_run_def Task_exec_def Task_run_def Let_def
          split: option.splits sum.splits)
  qed (auto simp add: threadHandler_locked_def threadHandler_wait_for_def notify_all_def
      threads_erase_def Let_def dec split: list.splits if_splits)
qed (use assms in \<open>simp_all add: ThreadPool_setPoolMode_def ThreadPool_setTaskQueMaxThreshHold_def
      ThreadPool_setThreadMaxThreshHold_def checkRunningState_def\<close>)

lemma reach_lower:
  assumes "rtranclp running_step s t" and "isPoolRunning s"
    and "initThreadSize s \<le> curThreadSize s"
  shows "isPoolRunning t \<and> initThreadSize t = initThreadSize s \<and>
    initThreadSize t \<le> curThreadSize t"
  using assms
proof (induction rule: rtranclp_induct)
  case base
  then show ?case by simp
next
  case (step y z)
  from step.IH [OF step.prems] running_step_lower [OF step.hyps(2)] show ?case by auto
qed

lemma reach_upper:
  assumes "rtranclp running_step s t" and "isPoolRunning s"
    and "curThreadSize s \<le> threadSizeThreshHold s"
  shows "isPoolRunning t \<and> curThreadSize t \<le> threadSizeThreshHold t"
  using assms
proof (induction rule: rtranclp_induct)
  case base
  then show ?case by simp
next
  case (step y z)
  from step.IH [OF step.prems] running_step_upper [OF step.hyps(2)] show ?case by auto
qed

text \<open>
  \<^verbatim>\<open>start\<close> does not compare its argument with the ceiling: a cached pool whose ceiling
  was set to 1 and that is started with 2 workers has a worker count above its ceiling.
\<close>

theorem start_exceeds_ceiling_counterexample:
  "ThreadPool_start 2 (ThreadPool_setThreadMaxThreshHold 1 cached_pool) = Inr over_ceiling \<and>
   threadSizeThreshHold over_ceiling = 1 \<and> curThreadSize over_ceiling = 2 \<and>
   \<not> curThreadSize over_ceiling \<le> threadSizeThreshHold over_ceiling"
  by (simp add: run_defs eval_defs word_le_nat_alt)

text \<open>
  C2, as amended. In every state that a pool started with \<open>n\<close> workers reaches through
  submissions, steps of the dispatch loops and calls of setters, before its destructor
  runs, the initial count is \<open>n\<close> and the worker count is at least \<open>n\<close>, in either mode;
  and if \<open>n\<close> did not exceed the ceiling at the start, the worker count does not exceed
  the ceiling.
\<close>

theorem worker_count_within_bounds:
  assumes "ThreadPool_start n s0 = Inr s" and "rtranclp running_step s t"
  shows "initThreadSize t = n \<and> n \<le> curThreadSize t \<and>
    (n \<le> threadSizeThreshHold s0 \<longrightarrow> curThreadSize t \<le> threadSizeThreshHold t)"
proof -
  from start_establishes [OF assms(1)] have
    st: "isPoolRunning s" "initThreadSize s = n" "curThreadSize s = n"
      "threadSizeThreshHold s = threadSizeThreshHold s0"
    by simp_all
  from reach_lower [OF assms(2) st(1)] st have "initThreadSize t = n \<and> n \<le> curThreadSize t"
    by auto
  moreover have "curThreadSize t \<le> threadSizeThreshHold t" if "n \<le> threadSizeThreshHold s0"
    using reach_upper [OF assms(2) st(1)] st that by simp
  ultimately show ?thesis by blast
qed

text \<open>
  The cached pool started with one worker, after a submission, the worker taking the
  task and a second submission that spawns: two workers, between 1 and 1024.
\<close>

theorem worker_count_within_bounds_witness:
  "ThreadPool_start 1 cached_pool = Inr run_started \<and>
   rtranclp running_step run_started run_grown \<and>
   1 \<le> threadSizeThreshHold cached_pool \<and>
   initThreadSize run_grown = 1 \<and> 1 \<le> curThreadSize run_grown \<and>
   curThreadSize run_grown \<le> threadSizeThreshHold run_grown \<and>
   curThreadSize run_grown = 2 \<and> threadSizeThreshHold run_grown = 1024"
proof -
  have r1: "running_step run_started run_submitted"
    by (rule running_step.submit [OF run_submitted_eq])
  have r2: "running_step run_submitted run_taken"
    by (rule running_step.worker [OF run_taken_eq])
  have r3: "running_step run_taken run_grown"
    by (rule running_step.submit [OF run_grown_eq])
  from r1 r2 r3 have reach: "rtranclp running_step run_started run_grown"
    by (blast intro: rtranclp.intros)
  have ceil: "1 \<le> threadSizeThreshHold cached_pool"
    by (simp add: eval_defs)
  from worker_count_within_bounds [OF run_started_eq reach] ceil reach show ?thesis
    by (simp add: run_started_eq run_grown_fields)
qed

subsection \<open>ThreadPool: destructor\<close>

lemma exitCond_wait_Returned:
  "exitCond_wait s ws = Returned s' \<Longrightarrow> dom (threads s') = {} \<and> s' \<in> set (s # ws)"
  by (induction ws arbitrary: s) (auto split: if_splits)

lemma exitCond_wait_Blocked:
  "\<forall>x \<in> set (s # ws). dom (threads x) \<noteq> {} \<Longrightarrow> exitCond_wait s ws = Blocked"
  by (induction ws arbitrary: s) auto

text \<open>
  The destructor clears the running flag and broadcasts on \<^verbatim>\<open>notEmpty_\<close>, without
  touching the registry. Whatever states its wake-ups find, when it returns it returns
  in one of them and the registry is empty there; as long as the registry is non-empty
  in all of them it is blocked. A worker that, holding the mutex, finds the queue empty
  and the pool stopped exits: it erases its own identifier from the registry and
  notifies \<^verbatim>\<open>exitCond_\<close>.
\<close>

theorem dtor_returns_only_when_registry_empty:
  "isPoolRunning (ThreadPool_dtor_enter s) = False \<and>
   notified (ThreadPool_dtor_enter s) = notified s @ [NotEmpty] \<and>
   threads (ThreadPool_dtor_enter s) = threads s \<and>
   (\<forall>s'. ThreadPool_dtor s ws = Returned s' \<longrightarrow>
      dom (threads s') = {} \<and> s' \<in> set (ThreadPool_dtor_enter s # ws)) \<and>
   ((\<forall>x \<in> set (ThreadPool_dtor_enter s # ws). dom (threads x) \<noteq> {}) \<longrightarrow>
      ThreadPool_dtor s ws = Blocked) \<and>
   (taskQue s = [] \<and> \<not> isPoolRunning s \<longrightarrow>
      (\<exists>s'. threadHandler threadid status dur Locked s = Inr (Exited, s') \<and>
         threads s' = (threads s)(threadid := None) \<and>
         notified s' = notified s @ [ExitCond]))"
proof -
  have enter: "isPoolRunning (ThreadPool_dtor_enter s) = False \<and>
      notified (ThreadPool_dtor_enter s) = notified s @ [NotEmpty] \<and>
      threads (ThreadPool_dtor_enter s) = threads s"
    by (simp add: ThreadPool_dtor_enter_def notify_all_def)
  have ret: "\<forall>s'. ThreadPool_dtor s ws = Returned s' \<longrightarrow>
      dom (threads s') = {} \<and> s' \<in> set (ThreadPool_dtor_enter s # ws)"
    unfolding ThreadPool_dtor_def by (blast dest: exitCond_wait_Returned)
  have blk: "(\<forall>x \<in> set (ThreadPool_dtor_enter s # ws). dom (threads x) \<noteq> {}) \<longrightarrow>
      ThreadPool_dtor s ws = Blocked"
    unfolding ThreadPool_dtor_def by (blast intro: exitCond_wait_Blocked)
  have wk: "taskQue s = [] \<and> \<not> isPoolRunning s \<longrightarrow>
      (\<exists>s'. threadHandler threadid status dur Locked s = Inr (Exited, s') \<and>
         threads s' = (threads s)(threadid := None) \<and>
         notified s' = notified s @ [ExitCond])"
    by (simp add: threadHandler_locked_def threads_erase_def notify_all_def)
  from enter ret blk wk show ?thesis by blast
qed

text \<open>
  The fixed pool with two idle workers: its destructor is blocked at first, still
  blocked when woken by the exit of worker 0, and returns when woken by the exit of
  worker 1, the registry empty.
\<close>

theorem dtor_returns_only_when_registry_empty_witness:
  "ThreadPool_dtor fixed_started [] = Blocked \<and>
   ThreadPool_dtor fixed_started [fixed_one_left] = Blocked \<and>
   ThreadPool_dtor fixed_started [fixed_one_left, fixed_none_left] = Returned fixed_none_left \<and>
   dom (threads fixed_none_left) = {} \<and>
   threadHandler 0 no_timeout 0 Locked fixed_stopping = Inr (Exited, fixed_one_left) \<and>
   threadHandler 1 no_timeout 0 Locked fixed_one_left = Inr (Exited, fixed_none_left) \<and>
   notified fixed_none_left = [NotEmpty, ExitCond, ExitCond]"
proof -
  have d: "dom (threads (ThreadPool_dtor_enter fixed_started)) = {0, 1}"
    using fixed_stopping_fields(4) by (auto simp add: fixed_stopping_def)
  have b0: "\<forall>x \<in> set (ThreadPool_dtor_enter fixed_started # []). dom (threads x) \<noteq> {}"
    using d by (simp del: dom_eq_empty_conv)
  have b1: "\<forall>x \<in> set (ThreadPool_dtor_enter fixed_started # [fixed_one_left]).
      dom (threads x) \<noteq> {}"
    using d by (simp add: fixed_one_left_fields del: dom_eq_empty_conv)
  have r: "ThreadPool_dtor fixed_started [fixed_one_left, fixed_none_left] =
      Returned fixed_none_left"
    using d
    by (simp add: ThreadPool_dtor_def fixed_one_left_fields fixed_none_left_fields
        del: dom_eq_empty_conv)
  have w0: "taskQue fixed_stopping = [] \<and> \<not> isPoolRunning fixed_stopping"
    by (simp add: fixed_stopping_fields)
  have w1: "taskQue fixed_one_left = [] \<and> \<not> isPoolRunning fixed_one_left"
    by (simp add: fixed_one_left_fields)
  from dtor_returns_only_when_registry_empty [of fixed_started "[]"] b0
  have c0: "ThreadPool_dtor fixed_started [] = Blocked" by blast
  from dtor_returns_only_when_registry_empty [of fixed_started "[fixed_one_left]"] b1
  have c1: "ThreadPool_dtor fixed_started [fixed_one_left] = Blocked" by blast
  from dtor_returns_only_when_registry_empty
    [of fixed_started "[fixed_one_left, fixed_none_left]"] r
  have c2: "dom (threads fixed_none_left) = {}" by blast
  have c3: "threadHandler 0 no_timeout 0 Locked fixed_stopping = Inr (Exited, fixed_one_left)"
    using w0 by (simp add: fixed_one_left_def threadHandler_locked_def)
  have c4: "threadHandler 1 no_timeout 0 Locked fixed_one_left = Inr (Exited, fixed_none_left)"
    using w1 by (simp add: fixed_none_left_def threadHandler_locked_def)
  from c0 c1 r c2 c3 c4 fixed_none_left_fields(1) show ?thesis by simp
qed

text \<open>
  The idle retirement of a worker of the cached mode is another exit, taken after a wait
  that timed out, whatever the running flag says by then: it erases the identifier and
  decrements both counts, and notifies no condition variable.
\<close>

lemma idle_retire_exit:
  assumes "THREAD_IDLE_TIME \<le> dur" and "initThreadSize s < curThreadSize s"
  shows "threadHandler threadid timeout dur WaitingFor s =
    Inr (Exited, s\<lparr>threads := (threads s)(threadid := None),
                      curThreadSize := curThreadSize s - 1,
                      threadIdelSize := threadIdelSize s - 1\<rparr>)"
  using assms by (simp add: threadHandler_wait_for_def threads_erase_def)

text \<open>
  The run of the cached pool that has grown to two workers, both idle on the empty queue
  when the pool is destroyed.
\<close>

lemmas stop_defs =
  run_idle_def run_first_done_def run_both_busy_def after_step_def threadHandler_run_def
  Task_exec_def Task_run_def Result_setVal_def Semaphore_post_def Any_of_def

lemma run_idle_fields:
  "isPoolRunning run_idle" "poolMode run_idle = MODE_CACHED" "taskQue run_idle = []"
  "initThreadSize run_idle = 1" "curThreadSize run_idle = 2"
  "threads run_idle = [0 \<mapsto> \<lparr>threadId = 0\<rparr>, 1 \<mapsto> \<lparr>threadId = 1\<rparr>]"
  by (simp_all add: stop_defs run_defs eval_defs)

lemma run_stopping_fields:
  "\<not> isPoolRunning run_stopping" "taskQue run_stopping = []"
  "threads run_stopping = [0 \<mapsto> \<lparr>threadId = 0\<rparr>, 1 \<mapsto> \<lparr>threadId = 1\<rparr>]"
  by (simp_all add: run_stopping_def ThreadPool_dtor_enter_def notify_all_def run_idle_fields)

lemma run_one_left_fields:
  "\<not> isPoolRunning run_one_left" "initThreadSize run_one_left = 1"
  "curThreadSize run_one_left = 2" "dom (threads run_one_left) = {1}"
  "notified run_one_left = notified run_stopping @ [ExitCond]"
  by (auto simp add: run_one_left_def threadHandler_locked_def notify_all_def threads_erase_def
      run_stopping_fields run_stopping_def ThreadPool_dtor_enter_def run_idle_fields)

lemma run_none_left_fields:
  "dom (threads run_none_left) = {}" "notified run_none_left = notified run_one_left"
  using run_one_left_fields(4)
  by (auto simp add: run_none_left_def threadHandler_wait_for_def threads_erase_def
      THREAD_IDLE_TIME_def run_one_left_fields(2,3) word_le_nat_alt)

text \<open>
  C8. Each exiting worker is to remove itself from the registry and notify
  \<^verbatim>\<open>exitCond_\<close>, on which the destructor waits until the registry is empty. In this run
  both workers wait on the empty queue and the destructor, having cleared the flag and
  broadcast, is blocked with two workers registered. Worker 0 comes back from its wait,
  finds the pool stopped, erases itself and notifies; the destructor, woken, finds
  worker 1 registered and stays blocked. The wait of worker 1 comes back timed out two
  seconds after its last task, while the worker count 2 exceeds the initial count 1:
  the worker retires, erasing itself without a notification. The registry is empty and
  nothing wakes the destructor.
\<close>

theorem idle_retire_leaves_destructor_blocked:
  "threadHandler 0 no_timeout 0 Locked run_idle = Inr (WaitingFor, run_idle) \<and>
   threadHandler 1 no_timeout 0 Locked run_idle = Inr (WaitingFor, run_idle) \<and>
   ThreadPool_dtor run_idle [] = Blocked \<and>
   threadHandler 0 no_timeout 0 WaitingFor run_stopping = Inr (Locked, run_stopping) \<and>
   threadHandler 0 no_timeout 0 Locked run_stopping = Inr (Exited, run_one_left) \<and>
   notified run_one_left = notified run_stopping @ [ExitCond] \<and>
   dom (threads run_one_left) = {1} \<and>
   ThreadPool_dtor run_idle [run_one_left] = Blocked \<and>
   \<not> isPoolRunning run_one_left \<and>
   threadHandler 1 timeout 2 WaitingFor run_one_left = Inr (Exited, run_none_left) \<and>
   dom (threads run_none_left) = {} \<and>
   notified run_none_left = notified run_one_left"
proof -
  have d: "dom (threads (ThreadPool_dtor_enter run_idle)) = {0, 1}"
    using run_stopping_fields(3) by (auto simp add: run_stopping_def)
  have w: "threadHandler 0 no_timeout 0 Locked run_idle = Inr (WaitingFor, run_idle)"
    "threadHandler 1 no_timeout 0 Locked run_idle = Inr (WaitingFor, run_idle)"
    by (simp_all add: threadHandler_locked_def run_idle_fields)
  have b0: "ThreadPool_dtor run_idle [] = Blocked"
    using d by (simp add: ThreadPool_dtor_def del: dom_eq_empty_conv)
  have a0: "threadHandler 0 no_timeout 0 WaitingFor run_stopping = Inr (Locked, run_stopping)"
    by (simp add: threadHandler_wait_for_def)
  have a1: "threadHandler 0 no_timeout 0 Locked run_stopping = Inr (Exited, run_one_left)"
    by (simp add: run_one_left_def threadHandler_locked_def run_stopping_fields)
  have b1: "ThreadPool_dtor run_idle [run_one_left] = Blocked"
    using d by (simp add: ThreadPool_dtor_def run_one_left_fields del: dom_eq_empty_conv)
  have a2: "threadHandler 1 timeout 2 WaitingFor run_one_left = Inr (Exited, run_none_left)"
    by (simp add: run_none_left_def threadHandler_wait_for_def THREAD_IDLE_TIME_def
        run_one_left_fields word_le_nat_alt)
  from w b0 a0 a1 b1 a2 run_one_left_fields run_none_left_fields show ?thesis
    by simp
qed

end
